theory Spec2Isabelle
  imports Complex_Main
begin

section \<open>Data model\<close>

text \<open>
  The module \<^verbatim>\<open>src/carlin/polyhedron_toolbox.py\<close> works on Sage matrices, vectors
  and Polyhedron objects. Every container carries its base ring as a tag. A coefficient
  is the real number that the stored value denotes: an exact rational, or the value of a
  floating double. The numbers that a caller supplies are exact (Sage integers and
  rationals).
\<close>

datatype ring = QQ | RDF | ZZ

text \<open>
  A conversion into the floating double field \<^verbatim>\<open>RDF\<close> rounds to the nearest double,
  ties to the even significand (53 bits, smallest exponent \<open>-1074\<close>). The model has no
  infinities: it rounds a value beyond the largest double as if the exponent had no
  upper bound.
\<close>

definition round_half_even :: "real \<Rightarrow> int" where
  "round_half_even y =
     (let f = \<lfloor>y\<rfloor>; d = y - of_int f in
      if d < 1 / 2 then f else if 1 / 2 < d then f + 1 else if even f then f else f + 1)"

definition RDF_exponent :: "real \<Rightarrow> int" where
  "RDF_exponent x = max (\<lfloor>log 2 \<bar>x\<bar>\<rfloor> - 52) (- 1074)"

definition RDF_round :: "real \<Rightarrow> real" where
  "RDF_round x =
     (if x = 0 then 0
      else of_int (round_half_even (x / 2 powi RDF_exponent x)) * 2 powi RDF_exponent x)"

text \<open>
  The element of a ring that an exact number becomes: \<^verbatim>\<open>RDF\<close> rounds, the rational
  field and the integers keep the number.
\<close>

definition ring_elem :: "ring \<Rightarrow> real \<Rightarrow> real" where
  "ring_elem R x = (if R = RDF then RDF_round x else x)"

text \<open>
  The exceptions of the module. The two failures that the LP solver reports are raised by
  Sage as \<^verbatim>\<open>MIPSolverException\<close> and pass through the module unchanged.
\<close>

datatype lp_failure = InfeasibleError | UnboundedError

datatype error =
    ValueError
  | AttributeError
  | IndexError
  | TypeError
  | MIPSolverException lp_failure

record mat =
  m_ring :: ring
  m_ncols :: nat
  m_rows :: "real list list"

record vec =
  v_ring :: ring
  v_elems :: "real list"

text \<open>
  One constraint of a Polyhedron object: \<^verbatim>\<open>pigen.vector()\<close> is
  \<^verbatim>\<open>[offset, coeff_1, ..., coeff_n]\<close> and stands for \<open>offset + coeff . x \<ge> 0\<close>
  (an inequality) or \<open>offset + coeff . x = 0\<close> (an equation).
\<close>

record hconstraint =
  is_equation :: bool
  h_offset :: real
  h_coeffs :: "real list"

text \<open>
  The Polyhedron object is a handle of the polytope engine. The module reads its base
  ring, its emptiness flag and its constraint rows.
\<close>

record polyhedron =
  p_ring :: ring
  p_is_empty :: bool
  p_Hrep :: "hconstraint list"

text \<open>The Python values that the public functions receive and return.\<close>

datatype pyval =
    PyNone
  | Poly polyhedron
  | Mat mat
  | Vec vec
  | PyList "pyval list"

definition nrows :: "mat \<Rightarrow> nat" where
  "nrows A = length (m_rows A)"

definition ncols :: "mat \<Rightarrow> nat" where
  "ncols A = m_ncols A"

definition vlength :: "vec \<Rightarrow> nat" where
  "vlength b = length (v_elems b)"

text \<open>Every row of a Sage matrix has as many entries as the matrix has columns.\<close>

definition wf_mat :: "mat \<Rightarrow> bool" where
  "wf_mat A = list_all (\<lambda>row. length row = m_ncols A) (m_rows A)"

text \<open>\<^verbatim>\<open>matrix(R, rows)\<close> and \<^verbatim>\<open>vector(R, entries)\<close> of Sage, from Python lists.\<close>

definition matrix :: "ring \<Rightarrow> real list list \<Rightarrow> mat" where
  "matrix R rs =
     \<lparr>m_ring = R, m_ncols = (case rs of [] \<Rightarrow> 0 | r # _ \<Rightarrow> length r),
      m_rows = map (map (ring_elem R)) rs\<rparr>"

definition vector :: "ring \<Rightarrow> real list \<Rightarrow> vec" where
  "vector R xs = \<lparr>v_ring = R, v_elems = map (ring_elem R) xs\<rparr>"

definition cvector :: "hconstraint \<Rightarrow> real list" where
  "cvector c = h_offset c # h_coeffs c"

section \<open>Points, half-spaces and feasible regions\<close>

text \<open>
  A point assigns a value to every coordinate index; a row of coefficients reads the
  coordinates below its length.
\<close>

definition dot :: "real list \<Rightarrow> (nat \<Rightarrow> real) \<Rightarrow> real" where
  "dot a x = (\<Sum>j<length a. a ! j * x j)"

text \<open>The region \<open>{x. A x \<le> b}\<close> of a Half-Space Model, row by row.\<close>

definition sat_rows :: "real list list \<Rightarrow> real list \<Rightarrow> (nat \<Rightarrow> real) \<Rightarrow> bool" where
  "sat_rows A b x = list_all (\<lambda>(a, \<beta>). dot a x \<le> \<beta>) (zip A b)"

definition in_Hrep :: "mat \<Rightarrow> vec \<Rightarrow> (nat \<Rightarrow> real) \<Rightarrow> bool" where
  "in_Hrep A b x = sat_rows (m_rows A) (v_elems b) x"

text \<open>The region of a Polyhedron object, from its constraint rows.\<close>

definition holds :: "hconstraint \<Rightarrow> (nat \<Rightarrow> real) \<Rightarrow> bool" where
  "holds c x =
     (if is_equation c then h_offset c + dot (h_coeffs c) x = 0
      else 0 \<le> h_offset c + dot (h_coeffs c) x)"

definition in_polyhedron :: "polyhedron \<Rightarrow> (nat \<Rightarrow> real) \<Rightarrow> bool" where
  "in_polyhedron P x = list_all (\<lambda>c. holds c x) (p_Hrep P)"

section \<open>Representation converter\<close>

text \<open>
  \<^verbatim>\<open>polyhedron_to_Hrep\<close>, lines 140-179. The two loops append to the Python lists
  \<^verbatim>\<open>A\<close>, \<^verbatim>\<open>b\<close> (and \<^verbatim>\<open>Aeq\<close>, \<^verbatim>\<open>beq\<close>); \<^verbatim>\<open>pi_vec[0]\<close> is the head of the
  constraint vector and \<^verbatim>\<open>pi_vec[1:len(pi_vec)]\<close> its tail.
\<close>

fun to_Hrep_loop ::
  "hconstraint list \<Rightarrow> real list list \<Rightarrow> real list \<Rightarrow> real list list \<times> real list" where
  "to_Hrep_loop [] A b = (A, b)"
| "to_Hrep_loop (pigen # P_gen) A b =
     (let pi_vec = cvector pigen in
      if is_equation pigen
      then to_Hrep_loop P_gen
             (A @ [map uminus (tl pi_vec), tl pi_vec]) (b @ [hd pi_vec, hd pi_vec])
      else to_Hrep_loop P_gen (A @ [map uminus (tl pi_vec)]) (b @ [hd pi_vec]))"

fun to_Hrep_sep_loop ::
  "hconstraint list \<Rightarrow> real list list \<Rightarrow> real list \<Rightarrow> real list list \<Rightarrow> real list \<Rightarrow>
   (real list list \<times> real list) \<times> (real list list \<times> real list)" where
  "to_Hrep_sep_loop [] A b Aeq beq = ((A, b), (Aeq, beq))"
| "to_Hrep_sep_loop (pigen # P_gen) A b Aeq beq =
     (let pi_vec = cvector pigen in
      if is_equation pigen
      then to_Hrep_sep_loop P_gen A b (Aeq @ [map uminus (tl pi_vec)]) (beq @ [hd pi_vec])
      else to_Hrep_sep_loop P_gen (A @ [map uminus (tl pi_vec)]) (b @ [hd pi_vec]) Aeq beq)"

text \<open>The returned Python list: \<^verbatim>\<open>[A, b]\<close> or \<^verbatim>\<open>[A, b, Aeq, beq]\<close>.\<close>

definition polyhedron_to_Hrep :: "polyhedron \<Rightarrow> bool \<Rightarrow> pyval list" where
  "polyhedron_to_Hrep P separate_equality_constraints =
     (if \<not> separate_equality_constraints then
        (case to_Hrep_loop (p_Hrep P) [] [] of
           (A, b) \<Rightarrow> [Mat (matrix RDF A), Vec (vector RDF b)])
      else
        (case to_Hrep_sep_loop (p_Hrep P) [] [] [] [] of
           ((A, b), (Aeq, beq)) \<Rightarrow>
             [Mat (matrix RDF A), Vec (vector RDF b),
              Mat (matrix RDF Aeq), Vec (vector RDF beq)]))"

text \<open>
  \<^verbatim>\<open>polyhedron_from_Hrep\<close>, lines 234-302, for Sage matrices and vectors (the branch
  that first copies a numpy array into a Sage container is left out). The loop builds
  \<^verbatim>\<open>ieqs_list\<close>: row \<open>i\<close> is \<^verbatim>\<open>list(-A.row(i))\<close> with \<^verbatim>\<open>b[i]\<close> inserted in front,
  and \<^verbatim>\<open>b[i]\<close> raises IndexError past the end of \<^verbatim>\<open>b\<close>. The results of
  \<^verbatim>\<open>A.change_ring\<close> and \<^verbatim>\<open>b.change_ring\<close> are discarded by the source.

  The constructor \<^verbatim>\<open>Polyhedron(ieqs, base_ring, ambient_dim, backend)\<close> belongs to the
  polytope engine and is a parameter of the model.
\<close>

type_synonym engine = "real list list \<Rightarrow> ring \<Rightarrow> nat \<Rightarrow> string \<Rightarrow> polyhedron"

fun ieqs_loop :: "real list list \<Rightarrow> real list \<Rightarrow> nat \<Rightarrow> error + real list list" where
  "ieqs_loop [] b i = Inr []"
| "ieqs_loop (row # rows) b i =
     (if i < length b then
        (case ieqs_loop rows b (Suc i) of
           Inl e \<Rightarrow> Inl e
         | Inr ieqs_list \<Rightarrow> Inr ((b ! i # map uminus row) # ieqs_list))
      else Inl IndexError)"

definition polyhedron_from_Hrep :: "engine \<Rightarrow> mat \<Rightarrow> vec \<Rightarrow> ring \<Rightarrow> error + polyhedron" where
  "polyhedron_from_Hrep Polyhedron A b base_ring =
     (if base_ring = RDF then
        (case ieqs_loop (m_rows A) (v_elems b) 0 of
           Inl e \<Rightarrow> Inl e
         | Inr ieqs_list \<Rightarrow> Inr (Polyhedron ieqs_list RDF (ncols A) ''cdd''))
      else if base_ring = QQ then
        (case ieqs_loop (m_rows A) (v_elems b) 0 of
           Inl e \<Rightarrow> Inl e
         | Inr ieqs_list \<Rightarrow> Inr (Polyhedron ieqs_list QQ (ncols A) ''ppl''))
      else Inl ValueError)"

section \<open>Box builder\<close>

text \<open>
  \<^verbatim>\<open>BoxInfty\<close>, lines 544-615. The three optional arguments are None, a number, a
  list of numbers or a list of \<open>(min, max)\<close> pairs; a call with two positional arguments
  is read as center and radius.
\<close>

datatype boxarg = BNone | BNum real | BNums "real list" | BPairs "(real \<times> real) list"

definition BoxInfty_parse ::
  "boxarg \<Rightarrow> boxarg \<Rightarrow> boxarg \<Rightarrow> bool \<times> bool \<times> boxarg \<times> boxarg \<times> boxarg" where
  "BoxInfty_parse lengths center radius =
     (if lengths \<noteq> BNone then
        (if center = BNone \<and> radius = BNone then (True, False, lengths, center, radius)
         else if center \<noteq> BNone \<and> radius = BNone then (False, True, BNums [], lengths, center)
         else (False, False, lengths, center, radius))
      else (False, center \<noteq> BNone \<and> radius \<noteq> BNone, lengths, center, radius))"

text \<open>
  Modelled from the spec: the helper \<^verbatim>\<open>_make_listlist\<close> is called by the source and
  is not defined in it. The spec gives \<^verbatim>\<open>lengths\<close> as a sequence of \<open>(min, max)\<close>
  pairs and the source reads \<^verbatim>\<open>lengths[i][0]\<close> and \<^verbatim>\<open>lengths[i][1]\<close> from its
  result, so the helper turns every pair into the list of its two entries.
\<close>

definition make_listlist :: "(real \<times> real) list \<Rightarrow> real list list" where
  "make_listlist lengths = map (\<lambda>(lo, hi). [lo, hi]) lengths"

definition box_A :: "nat \<Rightarrow> real list list" where
  "box_A ndim =
     concat (map (\<lambda>i. let diri = (replicate ndim 0)[i := 1] in [diri, map uminus diri])
               [0..<ndim])"

text \<open>
  The cast \<^verbatim>\<open>base_ring(xi)\<close> of an exact number: the integers refuse a number that is
  not an integer. The sums \<^verbatim>\<open>center[i] + radius\<close> and \<^verbatim>\<open>center[i] - radius\<close> are
  computed in the base ring.
\<close>

definition ring_cast :: "ring \<Rightarrow> real \<Rightarrow> error + real" where
  "ring_cast R x =
     (case R of
        QQ \<Rightarrow> Inr x
      | RDF \<Rightarrow> Inr (RDF_round x)
      | ZZ \<Rightarrow> if x = of_int \<lfloor>x\<rfloor> then Inr x else Inl TypeError)"

fun cast_each :: "(real \<Rightarrow> error + real) \<Rightarrow> real list \<Rightarrow> error + real list" where
  "cast_each cast [] = Inr []"
| "cast_each cast (x # xs) =
     (case cast x of
        Inl e \<Rightarrow> Inl e
      | Inr y \<Rightarrow> (case cast_each cast xs of Inl e \<Rightarrow> Inl e | Inr ys \<Rightarrow> Inr (y # ys)))"

fun cast_rows :: "(real \<Rightarrow> error + real) \<Rightarrow> real list list \<Rightarrow> error + real list list" where
  "cast_rows cast [] = Inr []"
| "cast_rows cast (l # ls) =
     (case cast_each cast l of
        Inl e \<Rightarrow> Inl e
      | Inr l' \<Rightarrow> (case cast_rows cast ls of Inl e \<Rightarrow> Inl e | Inr ls' \<Rightarrow> Inr (l' # ls')))"

definition box_b_center :: "ring \<Rightarrow> real list \<Rightarrow> real \<Rightarrow> real list" where
  "box_b_center R center radius =
     concat (map (\<lambda>i. [ring_elem R (center ! i + radius), - ring_elem R (center ! i - radius)])
               [0..<length center])"

definition box_b_lengths :: "real list list \<Rightarrow> real list" where
  "box_b_lengths lengths =
     concat (map (\<lambda>i. [lengths ! i ! 1, - (lengths ! i ! 0)]) [0..<length lengths])"

text \<open>
  The cast \<^verbatim>\<open>base_ring(radius)\<close> takes a number, and a list with one number as that
  number.
\<close>

definition BoxInfty_radius :: "ring \<Rightarrow> boxarg \<Rightarrow> error + real" where
  "BoxInfty_radius R radius =
     (case radius of
        BNum r \<Rightarrow> ring_cast R r
      | BNums [r] \<Rightarrow> ring_cast R r
      | _ \<Rightarrow> Inl TypeError)"

definition BoxInfty_Hrep :: "boxarg \<Rightarrow> boxarg \<Rightarrow> boxarg \<Rightarrow> ring \<Rightarrow> error + mat \<times> vec" where
  "BoxInfty_Hrep lengths center radius base_ring =
     (case BoxInfty_parse lengths center radius of
        (got_lengths, got_center_and_radius, lengths', center', radius') \<Rightarrow>
          if got_center_and_radius then
            (case center' of
               BNums c \<Rightarrow>
                 (case cast_each (ring_cast base_ring) c of
                    Inl e \<Rightarrow> Inl e
                  | Inr center'' \<Rightarrow>
                      (case BoxInfty_radius base_ring radius' of
                         Inl e \<Rightarrow> Inl e
                       | Inr radius'' \<Rightarrow>
                           (let ndim = length center'' in
                            Inr (\<lparr>m_ring = base_ring, m_ncols = ndim, m_rows = box_A ndim\<rparr>,
                                 \<lparr>v_ring = base_ring,
                                  v_elems = box_b_center base_ring center'' radius''\<rparr>))))
             | _ \<Rightarrow> Inl TypeError)
          else if got_lengths then
            (case lengths' of
               BPairs ls \<Rightarrow>
                 (case cast_rows (ring_cast base_ring) (make_listlist ls) of
                    Inl e \<Rightarrow> Inl e
                  | Inr ll \<Rightarrow>
                      (let ndim = length ll in
                       Inr (\<lparr>m_ring = base_ring, m_ncols = ndim, m_rows = box_A ndim\<rparr>,
                            \<lparr>v_ring = base_ring, v_elems = box_b_lengths ll\<rparr>)))
             | _ \<Rightarrow> Inl TypeError)
          else Inl ValueError)"

definition BoxInfty ::
  "engine \<Rightarrow> boxarg \<Rightarrow> boxarg \<Rightarrow> boxarg \<Rightarrow> ring \<Rightarrow> bool \<Rightarrow> error + pyval" where
  "BoxInfty Polyhedron lengths center radius base_ring return_HSpaceRep =
     (case BoxInfty_Hrep lengths center radius base_ring of
        Inl e \<Rightarrow> Inl e
      | Inr (A, b) \<Rightarrow>
          if \<not> return_HSpaceRep then
            (case polyhedron_from_Hrep Polyhedron A b base_ring of
               Inl e \<Rightarrow> Inl e
             | Inr P \<Rightarrow> Inr (Poly P))
          else Inr (PyList [Mat A, Vec b]))"

section \<open>Linear programs and the solver boundary\<close>

text \<open>
  A linear program of \<^verbatim>\<open>MixedIntegerLinearProgram(maximization=True)\<close>: an objective
  and rows \<open>a . x \<le> \<beta>\<close> over free real variables, the variables numbered in the order
  of their keys. The variables of \<^verbatim>\<open>new_variable()\<close> carry no sign constraint, like
  those of \<^verbatim>\<open>new_variable(integer=False, nonnegative=False)\<close>. The solver is a
  parameter: \<^verbatim>\<open>solve()\<close> returns the optimal value, \<^verbatim>\<open>get_values\<close> reads the
  optimal point, and a failure is raised as an error. The default backend computes in
  floating point, so the point it returns need not be an exact optimum.
\<close>

record lp =
  lp_objective :: "real list"
  lp_rows :: "(real list \<times> real) list"

type_synonym lp_solver = "lp \<Rightarrow> lp_failure + (real \<times> (nat \<Rightarrow> real))"

definition lp_feasible :: "lp \<Rightarrow> (nat \<Rightarrow> real) \<Rightarrow> bool" where
  "lp_feasible p x = list_all (\<lambda>(a, \<beta>). dot a x \<le> \<beta>) (lp_rows p)"

definition lp_value :: "lp \<Rightarrow> (nat \<Rightarrow> real) \<Rightarrow> real" where
  "lp_value p x = dot (lp_objective p) x"

definition lp_optimal :: "lp \<Rightarrow> (nat \<Rightarrow> real) \<Rightarrow> bool" where
  "lp_optimal p x = (lp_feasible p x \<and> (\<forall>y. lp_feasible p y \<longrightarrow> lp_value p y \<le> lp_value p x))"

definition lp_unbounded :: "lp \<Rightarrow> bool" where
  "lp_unbounded p = (\<forall>M. \<exists>x. lp_feasible p x \<and> M < lp_value p x)"

text \<open>
  The contract of the solver boundary at one program: an answer is an optimal point with
  its value, a reported failure is the truth about the program.
\<close>

definition solver_answers :: "lp_solver \<Rightarrow> lp \<Rightarrow> bool" where
  "solver_answers solve p =
     (case solve p of
        Inr (oval, x) \<Rightarrow> lp_optimal p x \<and> oval = lp_value p x
      | Inl InfeasibleError \<Rightarrow> \<not> (\<exists>x. lp_feasible p x)
      | Inl UnboundedError \<Rightarrow> lp_unbounded p)"

section \<open>Chebyshev center\<close>

text \<open>
  \<^verbatim>\<open>chebyshev_center\<close>, lines 321-354. The variables \<^verbatim>\<open>x[0], ..., x[m-1]\<close> are
  numbered \<open>0, ..., m-1\<close> and the margin \<^verbatim>\<open>r[0]\<close> is numbered \<open>m\<close>.
\<close>

definition dot_product :: "real list \<Rightarrow> real list \<Rightarrow> real" where
  "dot_product u v = sum_list (map2 (*) u v)"

definition chebyshev_row :: "nat \<Rightarrow> real list \<Rightarrow> real list" where
  "chebyshev_row m v = map (\<lambda>j. v ! j) [0..<m] @ [sqrt (dot_product v v)]"

definition chebyshev_lp :: "mat \<Rightarrow> vec \<Rightarrow> lp" where
  "chebyshev_lp A b =
     (let n = nrows A; m = ncols A in
      \<lparr>lp_objective = replicate m 0 @ [1],
       lp_rows = map (\<lambda>i. (chebyshev_row m (m_rows A ! i), v_elems b ! i)) [0..<n]\<rparr>)"

text \<open>
  The argument parsing of lines 321-330: which input mode was resolved, and the matrix
  and right-hand side after the swap of a two-positional call.
\<close>

definition chebyshev_parse :: "pyval \<Rightarrow> pyval \<Rightarrow> pyval \<Rightarrow> bool \<times> bool \<times> pyval \<times> pyval" where
  "chebyshev_parse P A b =
     (if P \<noteq> PyNone then
        (if A = PyNone \<and> b = PyNone then (True, False, A, b)
         else if A \<noteq> PyNone \<and> b = PyNone then (False, True, P, A)
         else (False, False, A, b))
      else (False, A \<noteq> PyNone \<and> b \<noteq> PyNone, A, b))"

text \<open>
  \<^verbatim>\<open>vector(cheby_center)\<close> builds the vector over the ring of its entries; Sage gives
  the empty list the ring of integers.
\<close>

definition vector_of_list :: "ring \<Rightarrow> real list \<Rightarrow> vec" where
  "vector_of_list R xs = \<lparr>v_ring = (if xs = [] then ZZ else R), v_elems = xs\<rparr>"

text \<open>
  Line 351 casts every value that the solver returns with \<^verbatim>\<open>base_ring(...)\<close>. The
  value is a floating number: \<^verbatim>\<open>RDF\<close> takes it as a double, the integers refuse a
  value that is not an integer, and the rational field returns a rational near the value.
  Which rational is the business of Sage's coercion and a parameter of the model.
\<close>

definition value_cast :: "(real \<Rightarrow> real) \<Rightarrow> ring \<Rightarrow> real \<Rightarrow> error + real" where
  "value_cast QQ_of_float R v =
     (case R of
        QQ \<Rightarrow> Inr (QQ_of_float v)
      | RDF \<Rightarrow> Inr (RDF_round v)
      | ZZ \<Rightarrow> if v = of_int \<lfloor>v\<rfloor> then Inr v else Inl TypeError)"

definition chebyshev_solve ::
  "lp_solver \<Rightarrow> (real \<Rightarrow> real) \<Rightarrow> pyval \<Rightarrow> pyval \<Rightarrow> error + pyval" where
  "chebyshev_solve solve QQ_of_float A b =
     (case (A, b) of
        (Mat A', Vec b') \<Rightarrow>
          (let base_ring = m_ring A'; n = nrows A'; m = ncols A' in
           if \<not> n = vlength b' then Inr (PyList [])
           else
             (case solve (chebyshev_lp A' b') of
                Inl e \<Rightarrow> Inl (MIPSolverException e)
              | Inr (oval, values) \<Rightarrow>
                  (case cast_each (value_cast QQ_of_float base_ring) (map values [0..<m]) of
                     Inl e \<Rightarrow> Inl e
                   | Inr cheby_center \<Rightarrow> Inr (Vec (vector_of_list base_ring cheby_center)))))
      | _ \<Rightarrow> Inl AttributeError)"

definition chebyshev_center ::
  "lp_solver \<Rightarrow> (real \<Rightarrow> real) \<Rightarrow> pyval \<Rightarrow> pyval \<Rightarrow> pyval \<Rightarrow> error + pyval" where
  "chebyshev_center solve QQ_of_float P A b =
     (case chebyshev_parse P A b of
        (got_P, got_Ab, A', b') \<Rightarrow>
          if got_Ab \<or> got_P then
            (if got_P then
               (case P of
                  Poly P' \<Rightarrow>
                    (case polyhedron_to_Hrep P' False of
                       [A'', b''] \<Rightarrow> chebyshev_solve solve QQ_of_float A'' b''
                     | _ \<Rightarrow> Inl ValueError)
                | _ \<Rightarrow> Inl AttributeError)
             else chebyshev_solve solve QQ_of_float A' b')
          else Inl ValueError)"

section \<open>Support function\<close>

text \<open>
  \<^verbatim>\<open>supp_fun_polyhedron\<close>, lines 452-499. The first statement calls
  \<^verbatim>\<open>P.is_empty()\<close>: a method of the Polyhedron object, which a Python list, None, a
  matrix and a vector do not have, so the attribute lookup raises AttributeError.
\<close>

definition py_is_empty :: "pyval \<Rightarrow> error + bool" where
  "py_is_empty P = (case P of Poly P' \<Rightarrow> Inr (p_is_empty P') | _ \<Rightarrow> Inl AttributeError)"

text \<open>
  Lines 467-479, the extraction of \<^verbatim>\<open>(A, b)\<close> from the Polyhedron object: one row
  per constraint, \<^verbatim>\<open>P.Hrepresentation()[0]\<close> raises IndexError when there is no
  constraint. The engine gives every constraint vector the length \<open>n + 1\<close>, and the
  entries written into \<^verbatim>\<open>A\<close> and \<^verbatim>\<open>b\<close> are elements of the ring of the object.
\<close>

definition supp_inline_Hrep :: "polyhedron \<Rightarrow> error + mat \<times> vec" where
  "supp_inline_Hrep P =
     (case p_Hrep P of
        [] \<Rightarrow> Inl IndexError
      | c0 # _ \<Rightarrow>
          (let base_ring = p_ring P; n = length (cvector c0) - 1 in
           Inr (\<lparr>m_ring = base_ring, m_ncols = n,
                 m_rows = map (\<lambda>pigen. map uminus (tl (cvector pigen))) (p_Hrep P)\<rparr>,
                \<lparr>v_ring = base_ring,
                 v_elems = map (\<lambda>pigen. hd (cvector pigen)) (p_Hrep P)\<rparr>)))"

text \<open>The program \<^verbatim>\<open>maximize sum(d[i]*x[i])\<close> subject to \<^verbatim>\<open>A * x <= b\<close>.\<close>

definition support_lp :: "real list \<Rightarrow> mat \<Rightarrow> vec \<Rightarrow> lp" where
  "support_lp d A b = \<lparr>lp_objective = d, lp_rows = zip (m_rows A) (v_elems b)\<rparr>"

datatype supp_result = Oval real | OvalXopt real "nat \<Rightarrow> real"

definition supp_constraints :: "pyval \<Rightarrow> error + mat \<times> vec" where
  "supp_constraints P =
     (case P of
        PyList l \<Rightarrow>
          (case l of
             A # b # _ \<Rightarrow>
               (case (A, b) of (Mat A', Vec b') \<Rightarrow> Inr (A', b') | _ \<Rightarrow> Inl TypeError)
           | _ \<Rightarrow> Inl IndexError)
      | Poly P' \<Rightarrow> supp_inline_Hrep P'
      | _ \<Rightarrow> Inl AttributeError)"

definition supp_fun_polyhedron ::
  "lp_solver \<Rightarrow> pyval \<Rightarrow> real list \<Rightarrow> bool \<Rightarrow> error + supp_result" where
  "supp_fun_polyhedron solve P d return_xopt =
     (case py_is_empty P of
        Inl e \<Rightarrow> Inl e
      | Inr True \<Rightarrow> Inr (Oval 0)
      | Inr False \<Rightarrow>
          (case supp_constraints P of
             Inl e \<Rightarrow> Inl e
           | Inr (A, b) \<Rightarrow>
               (case solve (support_lp d A b) of
                  Inl e \<Rightarrow> Inl (MIPSolverException e)
                | Inr (oval, xopt) \<Rightarrow>
                    Inr (if return_xopt then OvalXopt oval xopt else Oval oval))))"

section \<open>Sup-norm radius\<close>

text \<open>
  \<^verbatim>\<open>radius\<close>, lines 378-399. Each round of the loop builds the canonical direction,
  evaluates the support function at it and at its negation, and keeps the larger
  absolute value. A value that is not a list falls through and returns None.
\<close>

definition radius_update :: "real \<Rightarrow> real \<Rightarrow> real" where
  "radius_update aux_sf r = (if aux_sf \<ge> r then aux_sf else r)"

definition radius_abs :: "error + supp_result \<Rightarrow> error + real" where
  "radius_abs res =
     (case res of
        Inl e \<Rightarrow> Inl e
      | Inr (Oval v) \<Rightarrow> Inr \<bar>v\<bar>
      | Inr (OvalXopt v xopt) \<Rightarrow> Inl TypeError)"

fun radius_loop :: "lp_solver \<Rightarrow> pyval \<Rightarrow> pyval \<Rightarrow> nat \<Rightarrow> nat list \<Rightarrow> real \<Rightarrow> error + real" where
  "radius_loop solve A b n [] r = Inr r"
| "radius_loop solve A b n (i # rest) r =
     (case radius_abs (supp_fun_polyhedron solve (PyList [A, b]) ((replicate n 0)[i := 1]) False) of
        Inl e \<Rightarrow> Inl e
      | Inr aux_sf \<Rightarrow>
          (case radius_abs
                  (supp_fun_polyhedron solve (PyList [A, b]) ((replicate n 0)[i := - 1]) False) of
             Inl e \<Rightarrow> Inl e
           | Inr aux_sf' \<Rightarrow>
               radius_loop solve A b n rest (radius_update aux_sf' (radius_update aux_sf r))))"

definition radius :: "lp_solver \<Rightarrow> pyval \<Rightarrow> error + real option" where
  "radius solve P =
     (case P of
        PyList l \<Rightarrow>
          (case l of
             A # b # _ \<Rightarrow>
               (case A of
                  Mat A' \<Rightarrow>
                    (let n = ncols A' in
                     (case radius_loop solve A b n [0..<n] 0 of
                        Inl e \<Rightarrow> Inl e
                      | Inr snorm \<Rightarrow> Inr (Some snorm)))
                | _ \<Rightarrow> Inl AttributeError)
           | _ \<Rightarrow> Inl IndexError)
      | _ \<Rightarrow> Inr None)"

section \<open>The polytope engine's boundary and the example inputs\<close>

text \<open>
  A row \<^verbatim>\<open>[offset, coeff_1, ..., coeff_n]\<close> handed to the constructor as an
  inequality stands for \<open>offset + coeff . x \<ge> 0\<close>. The engine may reorder, rescale and
  reduce the rows; what the converter relies on is that the object it returns has the
  region of the rows it was given.
\<close>

definition ieq_holds :: "real list \<Rightarrow> (nat \<Rightarrow> real) \<Rightarrow> bool" where
  "ieq_holds row x = (0 \<le> hd row + dot (tl row) x)"

definition engine_keeps_region :: "engine \<Rightarrow> real list list \<Rightarrow> ring \<Rightarrow> nat \<Rightarrow> string \<Rightarrow> bool" where
  "engine_keeps_region Polyhedron ieqs R n backend =
     (\<forall>x. in_polyhedron (Polyhedron ieqs R n backend) x = list_all (\<lambda>row. ieq_holds row x) ieqs)"

text \<open>
  A region is full-dimensional when it contains a box of positive radius around one of
  its points.
\<close>

definition interior_point :: "mat \<Rightarrow> vec \<Rightarrow> (nat \<Rightarrow> real) \<Rightarrow> real \<Rightarrow> bool" where
  "interior_point A b x0 \<epsilon> = (0 < \<epsilon> \<and> (\<forall>y. (\<forall>j. \<bar>y j - x0 j\<bar> \<le> \<epsilon>) \<longrightarrow> in_Hrep A b y))"

definition full_dimensional :: "mat \<Rightarrow> vec \<Rightarrow> bool" where
  "full_dimensional A b = (\<exists>x0 \<epsilon>. interior_point A b x0 \<epsilon>)"

text \<open>
  A Polyhedron object whose offsets and coefficients are doubles: the conversion into
  \<^verbatim>\<open>RDF\<close> leaves them as they are.
\<close>

definition exact_in_RDF :: "polyhedron \<Rightarrow> bool" where
  "exact_in_RDF P =
     list_all (\<lambda>c. RDF_round (h_offset c) = h_offset c
                    \<and> list_all (\<lambda>a. RDF_round a = a) (h_coeffs c)) (p_Hrep P)"

text \<open>
  The polytope \<open>{1}\<close> of the real line, as the engine describes it: the single
  equation \<open>-1 + x = 0\<close>.
\<close>

definition point_polytope :: polyhedron where
  "point_polytope =
     \<lparr>p_ring = QQ, p_is_empty = False,
      p_Hrep = [\<lparr>is_equation = True, h_offset = - 1, h_coeffs = [1]\<rparr>]\<rparr>"

text \<open>An engine that keeps every inequality row as it is given, for concrete runs.\<close>

definition rows_engine :: engine where
  "rows_engine ieqs R n backend =
     \<lparr>p_ring = R, p_is_empty = False,
      p_Hrep = map (\<lambda>row. \<lparr>is_equation = False, h_offset = hd row, h_coeffs = tl row\<rparr>) ieqs\<rparr>"

section \<open>Rounding into the floating double field\<close>

lemma round_half_even_of_int: "round_half_even (of_int m) = m"
  by (simp add: round_half_even_def)

lemma round_half_even_minus: "round_half_even (- y) = - round_half_even y"
proof (cases "y = of_int \<lfloor>y\<rfloor>")
  case True
  then obtain m where "y = of_int m" by blast
  then have "- y = of_int (- m)" by simp
  then show ?thesis using \<open>y = of_int m\<close> round_half_even_of_int by metis
next
  case False
  then have fl: "\<lfloor>- y\<rfloor> = - \<lfloor>y\<rfloor> - 1"
    by (metis Ints_of_int ceiling_def floor_minus ceiling_altdef of_int_floor_cancel add.commute uminus_add_conv_diff minus_diff_eq diff_minus_eq_add)
  have d: "0 < y - of_int \<lfloor>y\<rfloor>" using False by (smt (verit) of_int_floor_le)
  show ?thesis
    unfolding round_half_even_def Let_def fl using d
    by (auto simp add: algebra_simps)
qed


lemma RDF_exponent_minus: "RDF_exponent (- x) = RDF_exponent x"
  by (simp add: RDF_exponent_def)

lemma RDF_round_minus: "RDF_round (- x) = - RDF_round x"
  by (simp add: RDF_round_def RDF_exponent_minus round_half_even_minus)

lemma floor_log2_between:
  assumes "2 ^ n \<le> x" "x < 2 ^ Suc n"
  shows "\<lfloor>log 2 x\<rfloor> = int n"
proof -
  have pos: "0 < x" using assms(1) by (smt (verit) zero_less_power)
  have "2 powr (of_int (int n)) \<le> x \<and> x < 2 powr (of_int (int n + 1))"
    using assms by (simp add: powr_realpow powr_add)
  then show ?thesis using pos by (simp add: floor_log_eq_powr_iff)
qed

lemma RDF_exponent_between:
  assumes "2 ^ n \<le> \<bar>x\<bar>" "\<bar>x\<bar> < 2 ^ Suc n"
  shows "RDF_exponent x = int n - 52"
  using floor_log2_between[OF assms] by (simp add: RDF_exponent_def)

lemma RDF_round_between:
  assumes "2 ^ n \<le> \<bar>x\<bar>" "\<bar>x\<bar> < 2 ^ Suc n"
  shows "RDF_round x = of_int (round_half_even (x / 2 powi (int n - 52))) * 2 powi (int n - 52)"
proof -
  have "x \<noteq> 0" using assms(1) by (smt (verit) zero_less_power abs_zero)
  then show ?thesis by (simp add: RDF_round_def RDF_exponent_between[OF assms])
qed

lemma RDF_round_1: "RDF_round 1 = 1"
  using RDF_round_between[of 0 1] by (simp add: power_int_minus round_half_even_def)

lemma RDF_round_m1: "RDF_round (- 1) = - 1"
  using RDF_round_minus[of 1] by (simp add: RDF_round_1)

lemma RDF_round_2_53_1: "RDF_round 9007199254740993 = 9007199254740992"
  using RDF_round_between[of 53 9007199254740993] by (simp add: round_half_even_def)

lemma ring_elem_QQ: "ring_elem QQ x = x"
  by (simp add: ring_elem_def)

lemma RDF_round_0: "RDF_round 0 = 0"
  by (simp add: RDF_round_def)

lemma ring_elem_RDF_small: "ring_elem RDF 1 = 1" "ring_elem RDF (- 1) = - 1" "ring_elem RDF 0 = 0"
  by (simp_all add: ring_elem_def RDF_round_1 RDF_round_m1 RDF_round_0)

lemma value_cast_error: "value_cast QQ_of_float R v = Inl e \<Longrightarrow> e = TypeError"
  by (cases R) (auto simp add: value_cast_def split: if_splits)

lemma cast_each_value_cast_error:
  "cast_each (value_cast QQ_of_float R) xs = Inl e \<Longrightarrow> e = TypeError"
  by (induction xs) (auto dest: value_cast_error split: sum.splits)

section \<open>Rows, points and the Chebyshev program\<close>

lemma dot_snoc: "dot (a @ [s]) y = dot a y + s * y (length a)"
  by (simp add: dot_def nth_append)

lemma dot_zero_coeffs: "\<forall>c\<in>set a. c = 0 \<Longrightarrow> dot a y = 0"
proof -
  assume z: "\<forall>c\<in>set a. c = 0"
  have "\<And>j. j < length a \<Longrightarrow> a ! j = 0" using z nth_mem by blast
  then show ?thesis by (simp add: dot_def)
qed

lemma dot_zero_point: "\<forall>j<length a. y j = 0 \<Longrightarrow> dot a y = 0"
  by (simp add: dot_def)

lemma dot_product_self: "dot_product v v = (\<Sum>c\<leftarrow>v. c * c)"
  by (induction v) (simp_all add: dot_product_def)

lemma dot_product_self_nonneg: "0 \<le> dot_product v v"
  unfolding dot_product_self by (induction v) simp_all

lemma dot_product_self_zero_iff: "dot_product v v = 0 \<longleftrightarrow> (\<forall>c\<in>set v. c = 0)"
  unfolding dot_product_self
proof (induction v)
  case Nil
  show ?case by simp
next
  case (Cons a v)
  have nn: "0 \<le> (\<Sum>c\<leftarrow>v. c * c)"
    using dot_product_self_nonneg[of v] by (simp add: dot_product_self)
  have "a * a + (\<Sum>c\<leftarrow>v. c * c) = 0 \<longleftrightarrow> a * a = 0 \<and> (\<Sum>c\<leftarrow>v. c * c) = 0"
    using nn by (simp add: add_nonneg_eq_0_iff)
  then show ?case using Cons.IH by simp
qed

lemma chebyshev_row_wf: "length v = m \<Longrightarrow> chebyshev_row m v = v @ [sqrt (dot_product v v)]"
  by (auto simp add: chebyshev_row_def intro: nth_equalityI)

lemma lp_feasible_chebyshev_lp:
  "lp_feasible (chebyshev_lp A b) y \<longleftrightarrow>
     (\<forall>i<nrows A. dot (chebyshev_row (ncols A) (m_rows A ! i)) y \<le> v_elems b ! i)"
  by (auto simp add: lp_feasible_def chebyshev_lp_def list_all_iff Let_def)

lemma wf_mat_row: "wf_mat A \<Longrightarrow> i < nrows A \<Longrightarrow> length (m_rows A ! i) = ncols A"
  by (simp add: wf_mat_def nrows_def ncols_def list_all_length)

lemma chebyshev_constraint:
  assumes "wf_mat A" "i < nrows A"
  shows "dot (chebyshev_row (ncols A) (m_rows A ! i)) y =
           dot (m_rows A ! i) y + sqrt (dot_product (m_rows A ! i) (m_rows A ! i)) * y (ncols A)"
  using wf_mat_row[OF assms] by (simp add: chebyshev_row_wf dot_snoc)

lemma dot_uminus: "dot (map uminus a) x = - dot a x"
  by (simp add: dot_def sum_negf)

lemma dot_update:
  assumes "j < length a"
  shows "dot a (x(j := x j + e)) = dot a x + a ! j * e"
proof -
  have "dot a (x(j := x j + e)) = (\<Sum>k<length a. a ! k * x k + (if k = j then a ! j * e else 0))"
    unfolding dot_def by (rule sum.cong) (auto simp add: algebra_simps)
  also have "\<dots> = dot a x + (\<Sum>k<length a. if k = j then a ! j * e else 0)"
    by (simp add: dot_def sum.distrib)
  also have "(\<Sum>k<length a. if k = j then a ! j * e else 0) = a ! j * e"
    using assms by simp
  finally show ?thesis .
qed

lemma sat_rows_nth:
  "length A = length b \<Longrightarrow> sat_rows A b x \<longleftrightarrow> (\<forall>k<length A. dot (A ! k) x \<le> b ! k)"
  by (simp add: sat_rows_def list_all_length)

lemma sat_rows_append:
  "length A = length b \<Longrightarrow>
   sat_rows (A @ A') (b @ b') x \<longleftrightarrow> sat_rows A b x \<and> sat_rows A' b' x"
  by (simp add: sat_rows_def)








lemma solver_answers_optimum:
  assumes sol: "solver_answers solve p"
    and opt: "lp_optimal p y0"
  shows "\<exists>oval x. solve p = Inr (oval, x) \<and> lp_optimal p x"
proof (cases "solve p")
  case (Inl e)
  show ?thesis
  proof (cases e)
    case InfeasibleError
    then have "\<not> (\<exists>x. lp_feasible p x)" using sol Inl by (simp add: solver_answers_def)
    then show ?thesis using opt by (simp add: lp_optimal_def)
  next
    case UnboundedError
    then have "lp_unbounded p" using sol Inl by (simp add: solver_answers_def)
    then obtain x where "lp_feasible p x" "lp_value p y0 < lp_value p x"
      unfolding lp_unbounded_def by blast
    then show ?thesis using opt by (auto simp add: lp_optimal_def)
  qed
next
  case (Inr res)
  then show ?thesis using sol by (cases res) (simp add: solver_answers_def)
qed

section \<open>Support function and radius on a list input\<close>

text \<open>
  Claim C1. The claim: for a Half-Space Model given as the list \<^verbatim>\<open>[A, b]\<close>,
  \<^verbatim>\<open>supp_fun_polyhedron([A, b], d)\<close> uses \<open>(A, b)\<close> as the constraints of the program
  and returns its optimal value. The code: line 453 calls \<^verbatim>\<open>P.is_empty()\<close> before
  anything else, a Python list has no such method, and every call with a list input
  ends in AttributeError, whatever the solver would answer. The branch of line 463 for
  a list input is never reached.
\<close>

theorem supp_fun_polyhedron_list_AttributeError:
  "supp_fun_polyhedron solve (PyList [Mat A, Vec b]) d return_xopt = Inl AttributeError"
  by (simp add: supp_fun_polyhedron_def py_is_empty_def)

text \<open>
  Claim C5. The claim: \<^verbatim>\<open>radius([A, b])\<close> is the largest absolute support value over
  the canonical directions and their negations, and the box of
  \<^verbatim>\<open>lengths=[(0,2),(0,4)]\<close> has radius 4. The code: \<^verbatim>\<open>radius\<close> passes the list
  \<^verbatim>\<open>[A, b]\<close> to \<^verbatim>\<open>supp_fun_polyhedron\<close>, whose first statement raises
  AttributeError on a list, so the call for that box raises instead of returning 4.
\<close>

theorem radius_box_lengths_AttributeError:
  "BoxInfty Polyhedron (BPairs [(0, 2), (0, 4)]) BNone BNone QQ True =
     Inr (PyList [Mat \<lparr>m_ring = QQ, m_ncols = 2,
                        m_rows = [[1, 0], [- 1, 0], [0, 1], [0, - 1]]\<rparr>,
                  Vec \<lparr>v_ring = QQ, v_elems = [2, 0, 4, 0]\<rparr>])
   \<and> radius solve
        (PyList [Mat \<lparr>m_ring = QQ, m_ncols = 2,
                       m_rows = [[1, 0], [- 1, 0], [0, 1], [0, - 1]]\<rparr>,
                 Vec \<lparr>v_ring = QQ, v_elems = [2, 0, 4, 0]\<rparr>]) = Inl AttributeError"
  by (simp add: BoxInfty_def BoxInfty_Hrep_def BoxInfty_parse_def make_listlist_def box_A_def
      box_b_lengths_def vector_def radius_def ncols_def supp_fun_polyhedron_def py_is_empty_def
      radius_abs_def ring_cast_def upt_rec[of 0] upt_rec[of 1] upt_rec[of 2])

section \<open>Equations in the representation converter\<close>

text \<open>
  Claim C2. The claim: without equality separation an equation row
  \<^verbatim>\<open>[offset, coeff]\<close> becomes the rows \<open>(-coeff, offset)\<close> and \<open>(coeff, offset)\<close>, and
  the resulting system has the region of the polytope. The code appends these two rows,
  but the equation \<open>offset + coeff . x = 0\<close> needs the right-hand side \<open>-offset\<close> in
  the second row. For the polytope \<open>{1}\<close> the system is \<open>-x \<le> -1\<close>, \<open>x \<le> -1\<close>: the
  point 1 of the polytope is not in its region.
\<close>

theorem polyhedron_to_Hrep_equation_loses_point:
  "polyhedron_to_Hrep point_polytope False =
     [Mat \<lparr>m_ring = RDF, m_ncols = 1, m_rows = [[- 1], [1]]\<rparr>,
      Vec \<lparr>v_ring = RDF, v_elems = [- 1, - 1]\<rparr>]
   \<and> in_polyhedron point_polytope (\<lambda>j. 1)
   \<and> \<not> in_Hrep \<lparr>m_ring = RDF, m_ncols = 1, m_rows = [[- 1], [1]]\<rparr>
              \<lparr>v_ring = RDF, v_elems = [- 1, - 1]\<rparr> (\<lambda>j. 1)"
  by (simp add: polyhedron_to_Hrep_def point_polytope_def cvector_def matrix_def vector_def
      ring_elem_RDF_small in_polyhedron_def holds_def dot_def in_Hrep_def sat_rows_def)

text \<open>
  Claim C6. The claim: the system that \<^verbatim>\<open>supp_fun_polyhedron\<close> extracts inline from a
  polytope object has the region of the system that \<^verbatim>\<open>polyhedron_to_Hrep\<close> returns.
  The code: the inline extraction writes one row per constraint and does not look at
  \<^verbatim>\<open>is_equation\<close>, the converter writes two rows for an equation. For the polytope
  \<open>{1}\<close> the inline system is \<open>-x \<le> -1\<close>, which holds at 1, and the converter's
  system does not hold at 1.
\<close>

theorem supp_inline_Hrep_differs_from_polyhedron_to_Hrep:
  "supp_inline_Hrep point_polytope =
     Inr (\<lparr>m_ring = QQ, m_ncols = 1, m_rows = [[- 1]]\<rparr>, \<lparr>v_ring = QQ, v_elems = [- 1]\<rparr>)
   \<and> in_Hrep \<lparr>m_ring = QQ, m_ncols = 1, m_rows = [[- 1]]\<rparr>
            \<lparr>v_ring = QQ, v_elems = [- 1]\<rparr> (\<lambda>j. 1)
   \<and> polyhedron_to_Hrep point_polytope False =
       [Mat \<lparr>m_ring = RDF, m_ncols = 1, m_rows = [[- 1], [1]]\<rparr>,
        Vec \<lparr>v_ring = RDF, v_elems = [- 1, - 1]\<rparr>]
   \<and> \<not> in_Hrep \<lparr>m_ring = RDF, m_ncols = 1, m_rows = [[- 1], [1]]\<rparr>
              \<lparr>v_ring = RDF, v_elems = [- 1, - 1]\<rparr> (\<lambda>j. 1)"
  by (simp add: polyhedron_to_Hrep_def point_polytope_def cvector_def matrix_def vector_def
      ring_elem_RDF_small ring_elem_QQ dot_def in_Hrep_def sat_rows_def supp_inline_Hrep_def)

section \<open>The base ring of the extracted system\<close>

text \<open>
  Claim C9. Whatever the base ring of the polytope object, the matrices and vectors that
  \<^verbatim>\<open>polyhedron_to_Hrep\<close> returns are over the floating double field: \<open>(A, b)\<close>
  without equality separation, and \<open>(A, b, Aeq, beq)\<close> with it.
\<close>

theorem polyhedron_to_Hrep_base_ring_RDF:
  "(\<exists>A b. polyhedron_to_Hrep P False = [Mat A, Vec b] \<and> m_ring A = RDF \<and> v_ring b = RDF)
   \<and> (\<exists>A b Aeq beq.
         polyhedron_to_Hrep P True = [Mat A, Vec b, Mat Aeq, Vec beq]
         \<and> m_ring A = RDF \<and> v_ring b = RDF \<and> m_ring Aeq = RDF \<and> v_ring beq = RDF)"
  by (simp add: polyhedron_to_Hrep_def matrix_def vector_def split: prod.splits)

section \<open>Input modes of the Chebyshev center\<close>

text \<open>
  Claim C8. When the number of rows of \<open>A\<close> differs from the length of \<open>b\<close>,
  \<^verbatim>\<open>chebyshev_center(A=A, b=b)\<close> returns the empty list. No error is raised, and the
  result is the same for every solver: the program is never handed to it.
\<close>

theorem chebyshev_center_dimension_mismatch:
  "nrows A \<noteq> vlength b \<Longrightarrow> chebyshev_center solve QQ_of_float PyNone (Mat A) (Vec b) = Inr (PyList [])"
  by (simp add: chebyshev_center_def chebyshev_parse_def chebyshev_solve_def)

theorem chebyshev_center_dimension_mismatch_witness:
  "chebyshev_center (\<lambda>p. Inl InfeasibleError) (\<lambda>v. v) PyNone
     (Mat (matrix QQ [[1], [- 1]])) (Vec (vector QQ [1])) = Inr (PyList [])"
  using chebyshev_center_dimension_mismatch
          [of "matrix QQ [[1], [- 1]]" "vector QQ [1]" "\<lambda>p. Inl InfeasibleError" "\<lambda>v. v"]
  by (simp add: nrows_def vlength_def matrix_def vector_def)

text \<open>
  Claim C10. A call with two positional arguments, \<^verbatim>\<open>chebyshev_center(X, Y)\<close>, binds
  \<open>P = X\<close>, \<open>A = Y\<close> and leaves \<open>b\<close> at None. It is the call
  \<^verbatim>\<open>chebyshev_center(A=X, b=Y)\<close> and does not raise the ValueError of the input
  parsing. That ValueError is raised exactly when no mode is resolved: no polytope and
  an incomplete pair, or a first argument together with \<open>b\<close>.
\<close>

lemma chebyshev_solve_no_ValueError: "chebyshev_solve solve QQ_of_float A b \<noteq> Inl ValueError"
  by (auto simp add: chebyshev_solve_def Let_def dest: cast_each_value_cast_error
      split: pyval.splits sum.splits prod.splits)

theorem chebyshev_center_two_positional:
  "(X \<noteq> PyNone \<and> Y \<noteq> PyNone \<longrightarrow>
      chebyshev_center solve QQ_of_float X Y PyNone = chebyshev_center solve QQ_of_float PyNone X Y
      \<and> chebyshev_center solve QQ_of_float X Y PyNone \<noteq> Inl ValueError)
   \<and> (chebyshev_center solve QQ_of_float P A b = Inl ValueError \<longleftrightarrow>
        (P = PyNone \<and> (A = PyNone \<or> b = PyNone)) \<or> (P \<noteq> PyNone \<and> b \<noteq> PyNone))"
  by (auto simp add: chebyshev_center_def chebyshev_parse_def chebyshev_solve_no_ValueError
        polyhedron_to_Hrep_def
      split: pyval.splits prod.splits)

theorem chebyshev_center_two_positional_witness:
  "chebyshev_center (\<lambda>p. Inr (1, \<lambda>j. if j = 1 then 1 else 0)) (\<lambda>v. v)
     (Mat (matrix QQ [[1], [- 1]])) (Vec (vector QQ [1, 1])) PyNone =
   chebyshev_center (\<lambda>p. Inr (1, \<lambda>j. if j = 1 then 1 else 0)) (\<lambda>v. v)
     PyNone (Mat (matrix QQ [[1], [- 1]])) (Vec (vector QQ [1, 1]))
   \<and> chebyshev_center (\<lambda>p. Inr (1, \<lambda>j. if j = 1 then 1 else 0)) (\<lambda>v. v)
       (Mat (matrix QQ [[1], [- 1]])) (Vec (vector QQ [1, 1])) PyNone =
     Inr (Vec (vector QQ [0]))"
  using chebyshev_center_two_positional
          [of "Mat (matrix QQ [[1], [- 1]])" "Vec (vector QQ [1, 1])"
              "\<lambda>p. Inr (1, \<lambda>j. if j = 1 then 1 else 0)" "\<lambda>v. v"]
  by (simp add: chebyshev_center_def chebyshev_parse_def chebyshev_solve_def matrix_def
      vector_def nrows_def ncols_def vlength_def vector_of_list_def value_cast_def
      ring_elem_QQ)

section \<open>Infeasible regions\<close>

text \<open>
  The margin \<^verbatim>\<open>r[0]\<close> of the Chebyshev program is a free variable. A row with a
  nonzero coefficient is satisfied by a margin that is negative enough, so only a row of
  zeros with a negative right-hand side makes the program infeasible.
\<close>

lemma zero_row_infeasible:
  assumes wf: "wf_mat A" and i: "i < nrows A"
    and z: "\<forall>c\<in>set (m_rows A ! i). c = 0" and neg: "v_elems b ! i < 0"
  shows "\<not> lp_feasible (chebyshev_lp A b) y"
proof
  assume f: "lp_feasible (chebyshev_lp A b) y"
  have n0: "dot_product (m_rows A ! i) (m_rows A ! i) = 0"
    using z by (simp add: dot_product_self_zero_iff)
  have "dot (chebyshev_row (ncols A) (m_rows A ! i)) y = 0"
    using chebyshev_constraint[OF wf i, of y] dot_zero_coeffs[OF z, of y] n0 by simp
  moreover have "dot (chebyshev_row (ncols A) (m_rows A ! i)) y \<le> v_elems b ! i"
    using f i by (simp add: lp_feasible_chebyshev_lp)
  ultimately show False using neg by simp
qed

lemma no_bad_row_feasible:
  assumes wf: "wf_mat A"
    and ok: "\<not> (\<exists>i<nrows A. (\<forall>c\<in>set (m_rows A ! i). c = 0) \<and> v_elems b ! i < 0)"
  shows "\<exists>y. lp_feasible (chebyshev_lp A b) y"
proof -
  define t where "t = (\<lambda>i. \<bar>v_elems b ! i\<bar> / sqrt (dot_product (m_rows A ! i) (m_rows A ! i)))"
  define \<rho> where "\<rho> = - (\<Sum>i<nrows A. t i)"
  define y where "y = (\<lambda>j. if j = ncols A then \<rho> else 0)"
  have nn: "\<And>k. 0 \<le> t k" by (simp add: t_def dot_product_self_nonneg)
  have deep: "\<rho> \<le> - t i" if "i < nrows A" for i
  proof -
    have "t i \<le> (\<Sum>k<nrows A. t k)"
      using member_le_sum[of i "{..<nrows A}" t] that nn by simp
    then show ?thesis by (simp add: \<rho>_def)
  qed
  have "dot (chebyshev_row (ncols A) (m_rows A ! i)) y \<le> v_elems b ! i" if i: "i < nrows A" for i
  proof -
    let ?v = "m_rows A ! i"
    let ?s = "sqrt (dot_product ?v ?v)"
    have len: "length ?v = ncols A" using wf_mat_row[OF wf i] .
    have d0: "dot ?v y = 0" using len by (simp add: dot_zero_point y_def)
    have eq: "dot (chebyshev_row (ncols A) ?v) y = ?s * \<rho>"
      using chebyshev_constraint[OF wf i, of y] d0 by (simp add: y_def)
    show ?thesis
    proof (cases "?s = 0")
      case True
      then have "\<forall>c\<in>set ?v. c = 0" by (simp add: dot_product_self_zero_iff)
      then have "0 \<le> v_elems b ! i" using ok i by force
      then show ?thesis using eq True by simp
    next
      case False
      then have pos: "0 < ?s" using dot_product_self_nonneg[of ?v] by simp
      have "?s * \<rho> \<le> ?s * (- t i)"
        by (rule mult_left_mono[OF deep[OF i]]) (use pos in simp)
      also have "\<dots> = - \<bar>v_elems b ! i\<bar>" using pos by (simp add: t_def)
      also have "\<dots> \<le> v_elems b ! i" by simp
      finally show ?thesis using eq by simp
    qed
  qed
  then have "lp_feasible (chebyshev_lp A b) y" by (simp add: lp_feasible_chebyshev_lp)
  then show ?thesis by blast
qed

lemma chebyshev_center_Ab:
  "nrows A = vlength b \<Longrightarrow>
   chebyshev_center solve QQ_of_float PyNone (Mat A) (Vec b) =
     (case solve (chebyshev_lp A b) of
        Inl e \<Rightarrow> Inl (MIPSolverException e)
      | Inr (oval, values) \<Rightarrow>
          (case cast_each (value_cast QQ_of_float (m_ring A)) (map values [0..<ncols A]) of
             Inl e \<Rightarrow> Inl e
           | Inr cheby_center \<Rightarrow> Inr (Vec (vector_of_list (m_ring A) cheby_center))))"
  by (simp add: chebyshev_center_def chebyshev_parse_def chebyshev_solve_def Let_def)

text \<open>
  Claim C7, as the code has it. The claim: for every Half-Space Model with an empty
  region, \<^verbatim>\<open>supp_fun_polyhedron\<close> and \<^verbatim>\<open>chebyshev_center\<close> both signal the
  solver's InfeasibleError. Amended: for a Half-Space Model with
  \<open>rows(A) = length(b)\<close> and a solver that answers the Chebyshev program correctly,
  \<^verbatim>\<open>chebyshev_center(A=A, b=b)\<close> signals the solver's InfeasibleError exactly when
  \<open>A\<close> has a row of zeros whose right-hand side is negative.
\<close>

theorem chebyshev_center_InfeasibleError_iff:
  assumes wf: "wf_mat A" and len: "nrows A = vlength b"
    and sol: "solver_answers solve (chebyshev_lp A b)"
  shows "chebyshev_center solve QQ_of_float PyNone (Mat A) (Vec b) = Inl (MIPSolverException InfeasibleError)
     \<longleftrightarrow> (\<exists>i<nrows A. (\<forall>c\<in>set (m_rows A ! i). c = 0) \<and> v_elems b ! i < 0)"
proof
  assume r: "chebyshev_center solve QQ_of_float PyNone (Mat A) (Vec b) = Inl (MIPSolverException InfeasibleError)"
  then have "solve (chebyshev_lp A b) = Inl InfeasibleError"
    by (auto simp add: chebyshev_center_Ab[OF len] dest: cast_each_value_cast_error
        split: sum.splits prod.splits)
  then have "\<not> (\<exists>x. lp_feasible (chebyshev_lp A b) x)"
    using sol by (simp add: solver_answers_def)
  then show "\<exists>i<nrows A. (\<forall>c\<in>set (m_rows A ! i). c = 0) \<and> v_elems b ! i < 0"
    using no_bad_row_feasible[OF wf, of b] by blast
next
  assume "\<exists>i<nrows A. (\<forall>c\<in>set (m_rows A ! i). c = 0) \<and> v_elems b ! i < 0"
  then obtain i where i: "i < nrows A" "\<forall>c\<in>set (m_rows A ! i). c = 0" "v_elems b ! i < 0"
    by blast
  have inf: "\<And>y. \<not> lp_feasible (chebyshev_lp A b) y"
    using zero_row_infeasible[OF wf i] .
  have "solve (chebyshev_lp A b) = Inl InfeasibleError"
  proof (cases "solve (chebyshev_lp A b)")
    case (Inl e)
    show ?thesis
    proof (cases e)
      case InfeasibleError
      then show ?thesis using Inl by simp
    next
      case UnboundedError
      then have "lp_unbounded (chebyshev_lp A b)" using sol Inl by (simp add: solver_answers_def)
      then show ?thesis using inf by (auto simp add: lp_unbounded_def)
    qed
  next
    case (Inr r)
    then have "lp_optimal (chebyshev_lp A b) (snd r)"
      using sol by (cases r) (simp add: solver_answers_def)
    then show ?thesis using inf by (simp add: lp_optimal_def)
  qed
  then show "chebyshev_center solve QQ_of_float PyNone (Mat A) (Vec b) = Inl (MIPSolverException InfeasibleError)"
    by (simp add: chebyshev_center_Ab[OF len])
qed

theorem chebyshev_center_InfeasibleError_iff_witness:
  "chebyshev_center (\<lambda>p. Inl InfeasibleError) (\<lambda>v. v) PyNone (Mat (matrix QQ [[0]])) (Vec (vector QQ [- 1]))
     = Inl (MIPSolverException InfeasibleError)"
proof -
  have wf: "wf_mat (matrix QQ [[0]])" by (simp add: wf_mat_def matrix_def)
  have len: "nrows (matrix QQ [[0]]) = vlength (vector QQ [- 1])"
    by (simp add: nrows_def vlength_def matrix_def vector_def ring_elem_QQ)
  have rows: "lp_rows (chebyshev_lp (matrix QQ [[0]]) (vector QQ [- 1])) = [([0, 0], - 1)]"
    by (simp add: chebyshev_lp_def matrix_def vector_def ring_elem_QQ nrows_def ncols_def chebyshev_row_def
        dot_product_def)
  have sol: "solver_answers (\<lambda>p. Inl InfeasibleError) (chebyshev_lp (matrix QQ [[0]]) (vector QQ [- 1]))"
    by (simp add: solver_answers_def lp_feasible_def rows dot_def)
  have ex: "\<exists>i<nrows (matrix QQ [[0]]). (\<forall>c\<in>set (m_rows (matrix QQ [[0]]) ! i). c = 0) \<and> v_elems (vector QQ [- 1]) ! i < 0"
    by (simp add: nrows_def matrix_def vector_def ring_elem_QQ)
  show ?thesis using chebyshev_center_InfeasibleError_iff[OF wf len sol] ex by simp
qed

text \<open>
  The claim fails at its own example \<open>A = [[1], [-1]]\<close>, \<open>b = [-1, -1]\<close>. The region is
  empty. \<^verbatim>\<open>supp_fun_polyhedron\<close> raises AttributeError on the list, even with a solver
  that reports infeasibility. The Chebyshev program \<open>x + r \<le> -1\<close>, \<open>-x + r \<le> -1\<close> has
  the optimum \<open>x = 0\<close>, \<open>r = -1\<close>, and with a solver that returns it
  \<^verbatim>\<open>chebyshev_center\<close> returns the point \<open>(0)\<close>.
\<close>

theorem infeasible_region_counterexample:
  "\<not> (\<exists>x. in_Hrep (matrix QQ [[1], [- 1]]) (vector QQ [- 1, - 1]) x)
   \<and> supp_fun_polyhedron (\<lambda>p. Inl InfeasibleError)
        (PyList [Mat (matrix QQ [[1], [- 1]]), Vec (vector QQ [- 1, - 1])]) [1] False = Inl AttributeError
   \<and> solver_answers (\<lambda>p. Inr (- 1, \<lambda>j. if j = 1 then - 1 else 0))
        (chebyshev_lp (matrix QQ [[1], [- 1]]) (vector QQ [- 1, - 1]))
   \<and> chebyshev_center (\<lambda>p. Inr (- 1, \<lambda>j. if j = 1 then - 1 else 0)) (\<lambda>v. v) PyNone
        (Mat (matrix QQ [[1], [- 1]])) (Vec (vector QQ [- 1, - 1])) = Inr (Vec (vector QQ [0]))"
proof (intro conjI)
  show "\<not> (\<exists>x. in_Hrep (matrix QQ [[1], [- 1]]) (vector QQ [- 1, - 1]) x)"
    by (simp add: in_Hrep_def sat_rows_def matrix_def vector_def ring_elem_QQ dot_def)
  show "supp_fun_polyhedron (\<lambda>p. Inl InfeasibleError)
        (PyList [Mat (matrix QQ [[1], [- 1]]), Vec (vector QQ [- 1, - 1])]) [1] False = Inl AttributeError"
    by (simp add: supp_fun_polyhedron_def py_is_empty_def)
  have rows: "lp_rows (chebyshev_lp (matrix QQ [[1], [- 1]]) (vector QQ [- 1, - 1])) = [([1, 1], - 1), ([- 1, 1], - 1)]"
    by (simp add: chebyshev_lp_def matrix_def vector_def ring_elem_QQ nrows_def ncols_def chebyshev_row_def
        dot_product_def upt_rec[of 0] upt_rec[of 1])
  have obj: "lp_objective (chebyshev_lp (matrix QQ [[1], [- 1]]) (vector QQ [- 1, - 1])) = [0, 1]"
    by (simp add: chebyshev_lp_def matrix_def vector_def ring_elem_QQ nrows_def ncols_def)
  show "solver_answers (\<lambda>p. Inr (- 1, \<lambda>j. if j = 1 then - 1 else 0))
        (chebyshev_lp (matrix QQ [[1], [- 1]]) (vector QQ [- 1, - 1]))"
    by (auto simp add: solver_answers_def lp_optimal_def lp_feasible_def lp_value_def rows obj dot_def)
  show "chebyshev_center (\<lambda>p. Inr (- 1, \<lambda>j. if j = 1 then - 1 else 0)) (\<lambda>v. v) PyNone
        (Mat (matrix QQ [[1], [- 1]])) (Vec (vector QQ [- 1, - 1])) = Inr (Vec (vector QQ [0]))"
    by (simp add: chebyshev_center_def chebyshev_parse_def chebyshev_solve_def matrix_def
      vector_def ring_elem_QQ nrows_def ncols_def vlength_def vector_of_list_def value_cast_def)
qed

section \<open>Round trip through the polytope engine\<close>

text \<open>
  The rows that \<^verbatim>\<open>polyhedron_from_Hrep\<close> hands to the constructor describe the region
  of \<open>(A, b)\<close>. \<^verbatim>\<open>polyhedron_to_Hrep\<close> reads every constraint back as
  \<open>offset + coeff . x \<ge> 0\<close> and, for an equation, \<open>coeff . x \<le> offset\<close>, and rounds every
  entry into \<^verbatim>\<open>RDF\<close>. On a region with an interior point an equation can only be
  \<open>0 = 0\<close>; when the entries of the object are doubles the rounding changes nothing.
\<close>

lemma ieqs_loop_region:
  "i + length rows \<le> length b \<Longrightarrow>
   \<exists>ieqs. ieqs_loop rows b i = Inr ieqs
      \<and> (\<forall>x. list_all (\<lambda>row. ieq_holds row x) ieqs
               \<longleftrightarrow> (\<forall>k<length rows. dot (rows ! k) x \<le> b ! (i + k)))"
proof (induction rows arbitrary: i)
  case Nil
  show ?case by simp
next
  case (Cons row rows)
  from Cons.prems have "Suc i + length rows \<le> length b" by simp
  from Cons.IH[OF this] obtain ieqs where
    l: "ieqs_loop rows b (Suc i) = Inr ieqs"
    and r: "\<And>x. list_all (\<lambda>row. ieq_holds row x) ieqs
               \<longleftrightarrow> (\<forall>k<length rows. dot (rows ! k) x \<le> b ! (Suc i + k))"
    by blast
  have i: "i < length b" using Cons.prems by simp
  have "ieqs_loop (row # rows) b i = Inr ((b ! i # map uminus row) # ieqs)"
    using i l by simp
  moreover have "list_all (\<lambda>row. ieq_holds row x) ((b ! i # map uminus row) # ieqs)
      \<longleftrightarrow> (\<forall>k<length (row # rows). dot ((row # rows) ! k) x \<le> b ! (i + k))" for x
    using r[of x] by (auto simp add: ieq_holds_def dot_uminus less_Suc_eq_0_disj)
  ultimately show ?case by blast
qed

lemma to_Hrep_loop_region:
  "length A = length b \<Longrightarrow>
   length (fst (to_Hrep_loop cs A b)) = length (snd (to_Hrep_loop cs A b))
   \<and> (sat_rows (fst (to_Hrep_loop cs A b)) (snd (to_Hrep_loop cs A b)) x \<longleftrightarrow>
        sat_rows A b x
        \<and> (\<forall>c\<in>set cs. 0 \<le> h_offset c + dot (h_coeffs c) x
               \<and> (is_equation c \<longrightarrow> dot (h_coeffs c) x \<le> h_offset c)))"
proof (induction cs arbitrary: A b)
  case Nil
  then show ?case by simp
next
  case (Cons c cs)
  show ?case
  proof (cases "is_equation c")
    case True
    let ?A = "A @ [map uminus (h_coeffs c), h_coeffs c]"
    let ?b = "b @ [h_offset c, h_offset c]"
    have len: "length ?A = length ?b" using Cons.prems by simp
    have step: "to_Hrep_loop (c # cs) A b = to_Hrep_loop cs ?A ?b"
      using True by (simp add: cvector_def)
    have "sat_rows ?A ?b x \<longleftrightarrow> sat_rows A b x
        \<and> 0 \<le> h_offset c + dot (h_coeffs c) x \<and> dot (h_coeffs c) x \<le> h_offset c"
      using Cons.prems by (auto simp add: sat_rows_append sat_rows_def dot_uminus)
    then show ?thesis using Cons.IH[OF len] True unfolding step by auto
  next
    case False
    let ?A = "A @ [map uminus (h_coeffs c)]"
    let ?b = "b @ [h_offset c]"
    have len: "length ?A = length ?b" using Cons.prems by simp
    have step: "to_Hrep_loop (c # cs) A b = to_Hrep_loop cs ?A ?b"
      using False by (simp add: cvector_def)
    have "sat_rows ?A ?b x \<longleftrightarrow> sat_rows A b x \<and> 0 \<le> h_offset c + dot (h_coeffs c) x"
      using Cons.prems by (auto simp add: sat_rows_append sat_rows_def dot_uminus)
    then show ?thesis using Cons.IH[OF len] False unfolding step by auto
  qed
qed

lemma map_RDF_round_fixed: "list_all (\<lambda>a. RDF_round a = a) xs \<Longrightarrow> map RDF_round xs = xs"
  by (induction xs) simp_all

lemma map_map_RDF_round_fixed:
  "list_all (list_all (\<lambda>a. RDF_round a = a)) rs \<Longrightarrow> map (map RDF_round) rs = rs"
  by (induction rs) (simp_all add: map_RDF_round_fixed)

lemma uminus_RDF_round_fixed:
  "list_all (\<lambda>a. RDF_round a = a) xs \<Longrightarrow> list_all (\<lambda>a. RDF_round a = a) (map uminus xs)"
  by (induction xs) (simp_all add: RDF_round_minus)

lemma to_Hrep_loop_exact:
  "list_all (list_all (\<lambda>a. RDF_round a = a)) A \<Longrightarrow> list_all (\<lambda>a. RDF_round a = a) b \<Longrightarrow>
   list_all (\<lambda>c. RDF_round (h_offset c) = h_offset c
                  \<and> list_all (\<lambda>a. RDF_round a = a) (h_coeffs c)) cs \<Longrightarrow>
   list_all (list_all (\<lambda>a. RDF_round a = a)) (fst (to_Hrep_loop cs A b))
   \<and> list_all (\<lambda>a. RDF_round a = a) (snd (to_Hrep_loop cs A b))"
proof (induction cs arbitrary: A b)
  case Nil
  then show ?case by simp
next
  case (Cons c cs)
  have co: "list_all (\<lambda>a. RDF_round a = a) (h_coeffs c)"
    and neg: "list_all (\<lambda>a. RDF_round a = a) (map uminus (h_coeffs c))"
    and off: "RDF_round (h_offset c) = h_offset c"
    using Cons.prems(3) by (simp_all add: uminus_RDF_round_fixed)
  have rest: "list_all (\<lambda>c. RDF_round (h_offset c) = h_offset c
                  \<and> list_all (\<lambda>a. RDF_round a = a) (h_coeffs c)) cs"
    using Cons.prems(3) by simp
  show ?case
  proof (cases "is_equation c")
    case True
    have "list_all (list_all (\<lambda>a. RDF_round a = a)) (A @ [map uminus (h_coeffs c), h_coeffs c])"
      and "list_all (\<lambda>a. RDF_round a = a) (b @ [h_offset c, h_offset c])"
      using Cons.prems(1,2) co neg off by simp_all
    from Cons.IH[OF this rest] True show ?thesis by (simp add: cvector_def)
  next
    case False
    have "list_all (list_all (\<lambda>a. RDF_round a = a)) (A @ [map uminus (h_coeffs c)])"
      and "list_all (\<lambda>a. RDF_round a = a) (b @ [h_offset c])"
      using Cons.prems(1,2) neg off by simp_all
    from Cons.IH[OF this rest] False show ?thesis by (simp add: cvector_def)
  qed
qed

lemma polyhedron_to_Hrep_exact:
  assumes "exact_in_RDF P"
  shows "polyhedron_to_Hrep P False =
     [Mat \<lparr>m_ring = RDF,
           m_ncols = (case fst (to_Hrep_loop (p_Hrep P) [] []) of [] \<Rightarrow> 0 | r # _ \<Rightarrow> length r),
           m_rows = fst (to_Hrep_loop (p_Hrep P) [] [])\<rparr>,
      Vec \<lparr>v_ring = RDF, v_elems = snd (to_Hrep_loop (p_Hrep P) [] [])\<rparr>]"
proof -
  have "list_all (list_all (\<lambda>a. RDF_round a = a)) (fst (to_Hrep_loop (p_Hrep P) [] []))
      \<and> list_all (\<lambda>a. RDF_round a = a) (snd (to_Hrep_loop (p_Hrep P) [] []))"
    using assms by (intro to_Hrep_loop_exact) (simp_all add: exact_in_RDF_def)
  moreover have "ring_elem RDF = RDF_round" by (rule ext) (simp add: ring_elem_def)
  ultimately show ?thesis
    by (cases "to_Hrep_loop (p_Hrep P) [] []")
       (simp add: polyhedron_to_Hrep_def matrix_def vector_def
          map_RDF_round_fixed map_map_RDF_round_fixed)
qed

lemma polyhedron_to_Hrep_region:
  assumes "exact_in_RDF P"
  shows "\<exists>A b. polyhedron_to_Hrep P False = [Mat A, Vec b]
     \<and> (\<forall>x. in_Hrep A b x \<longleftrightarrow>
           (\<forall>c\<in>set (p_Hrep P). 0 \<le> h_offset c + dot (h_coeffs c) x
               \<and> (is_equation c \<longrightarrow> dot (h_coeffs c) x \<le> h_offset c)))"
  unfolding polyhedron_to_Hrep_exact[OF assms]
  using to_Hrep_loop_region[of "[]" "[]" "p_Hrep P"]
  by (simp add: in_Hrep_def sat_rows_def)

lemma affine_zero_on_box:
  assumes e: "0 < \<epsilon>"
    and z: "\<And>y. (\<forall>j. \<bar>y j - x0 j\<bar> \<le> \<epsilon>) \<Longrightarrow> off + dot a y = 0"
  shows "off = 0 \<and> (\<forall>x. dot a x = 0)"
proof -
  have c0: "off + dot a x0 = 0" using z[of x0] e by simp
  have coef: "a ! j = 0" if j: "j < length a" for j
  proof -
    have "off + dot a (x0(j := x0 j + \<epsilon>)) = 0"
      using e by (intro z) simp
    then have "off + dot a x0 + a ! j * \<epsilon> = 0"
      using dot_update[OF j, of x0 \<epsilon>] by (simp add: add.assoc)
    then have "a ! j * \<epsilon> = 0" using c0 by linarith
    then show ?thesis using e by simp
  qed
  have d: "dot a x = 0" for x using coef by (simp add: dot_def)
  then show ?thesis using c0 by simp
qed

lemma polyhedron_to_Hrep_full_dimensional:
  assumes ex: "exact_in_RDF P"
    and e: "0 < \<epsilon>"
    and box: "\<And>y. (\<forall>j. \<bar>y j - x0 j\<bar> \<le> \<epsilon>) \<Longrightarrow> in_polyhedron P y"
  shows "\<exists>A' b'. polyhedron_to_Hrep P False = [Mat A', Vec b']
           \<and> (\<forall>x. in_Hrep A' b' x \<longleftrightarrow> in_polyhedron P x)"
proof -
  have triv: "h_offset c = 0 \<and> (\<forall>x. dot (h_coeffs c) x = 0)"
    if c: "c \<in> set (p_Hrep P)" and eq: "is_equation c" for c
  proof (rule affine_zero_on_box[OF e])
    fix y assume "\<forall>j. \<bar>y j - x0 j\<bar> \<le> \<epsilon>"
    then have "in_polyhedron P y" using box by simp
    then have "holds c y" using c by (simp add: in_polyhedron_def list_all_iff)
    then show "h_offset c + dot (h_coeffs c) y = 0" using eq by (simp add: holds_def)
  qed
  from polyhedron_to_Hrep_region[OF ex] obtain A' b' where
    h: "polyhedron_to_Hrep P False = [Mat A', Vec b']"
    and hr: "\<And>x. in_Hrep A' b' x \<longleftrightarrow>
           (\<forall>c\<in>set (p_Hrep P). 0 \<le> h_offset c + dot (h_coeffs c) x
               \<and> (is_equation c \<longrightarrow> dot (h_coeffs c) x \<le> h_offset c))"
    by blast
  have "in_Hrep A' b' x \<longleftrightarrow> in_polyhedron P x" for x
  proof -
    have "(0 \<le> h_offset c + dot (h_coeffs c) x
               \<and> (is_equation c \<longrightarrow> dot (h_coeffs c) x \<le> h_offset c)) \<longleftrightarrow> holds c x"
      if "c \<in> set (p_Hrep P)" for c
      using triv[OF that] by (auto simp add: holds_def)
    then show ?thesis
      unfolding hr by (simp add: in_polyhedron_def list_all_iff)
  qed
  then show ?thesis using h by blast
qed

lemma rows_engine_keeps_region: "engine_keeps_region rows_engine ieqs R n backend"
  by (simp add: engine_keeps_region_def rows_engine_def in_polyhedron_def holds_def ieq_holds_def
      list_all_iff)

lemma polyhedron_from_Hrep_region:
  assumes ring: "base_ring = QQ \<or> base_ring = RDF"
    and len: "nrows A = vlength b"
    and eng: "\<And>ieqs backend. engine_keeps_region Polyhedron ieqs base_ring (ncols A) backend"
  shows "\<exists>P. polyhedron_from_Hrep Polyhedron A b base_ring = Inr P
           \<and> (\<forall>x. in_polyhedron P x \<longleftrightarrow> in_Hrep A b x)"
proof -
  have "0 + length (m_rows A) \<le> length (v_elems b)"
    using len by (simp add: nrows_def vlength_def)
  from ieqs_loop_region[OF this] obtain ieqs where
    l: "ieqs_loop (m_rows A) (v_elems b) 0 = Inr ieqs"
    and r: "\<And>x. list_all (\<lambda>row. ieq_holds row x) ieqs
               \<longleftrightarrow> (\<forall>k<length (m_rows A). dot (m_rows A ! k) x \<le> v_elems b ! k)"
    by auto
  have ieqs: "list_all (\<lambda>row. ieq_holds row x) ieqs \<longleftrightarrow> in_Hrep A b x" for x
    using r[of x] len by (simp add: in_Hrep_def sat_rows_nth nrows_def vlength_def)
  show ?thesis
  proof (cases "base_ring = RDF")
    case True
    have "polyhedron_from_Hrep Polyhedron A b base_ring
            = Inr (Polyhedron ieqs RDF (ncols A) ''cdd'')"
      using True l by (simp add: polyhedron_from_Hrep_def)
    moreover have "in_polyhedron (Polyhedron ieqs RDF (ncols A) ''cdd'') x \<longleftrightarrow> in_Hrep A b x"
      for x
      using eng[of ieqs "''cdd''"] True ieqs[of x] by (simp add: engine_keeps_region_def)
    ultimately show ?thesis by blast
  next
    case False
    then have q: "base_ring = QQ" using ring by simp
    have "polyhedron_from_Hrep Polyhedron A b base_ring
            = Inr (Polyhedron ieqs QQ (ncols A) ''ppl'')"
      using q l by (simp add: polyhedron_from_Hrep_def)
    moreover have "in_polyhedron (Polyhedron ieqs QQ (ncols A) ''ppl'') x \<longleftrightarrow> in_Hrep A b x"
      for x
      using eng[of ieqs "''ppl''"] q ieqs[of x] by (simp add: engine_keeps_region_def)
    ultimately show ?thesis by blast
  qed
qed

text \<open>
  Claim C3, as the code has it. The claim: the round trip of a full-dimensional bounded
  Half-Space Model returns a system with the same region. Amended: for a Half-Space
  Model \<open>(A, b)\<close> with \<open>rows(A) = length(b)\<close> whose region is full-dimensional, and an
  engine whose Polyhedron object has the region of the rows it is given,
  \<^verbatim>\<open>polyhedron_from_Hrep(A, b, base_ring)\<close> returns a polytope object, and
  \<^verbatim>\<open>polyhedron_to_Hrep\<close> of it returns a system with the region of \<open>(A, b)\<close> whenever
  every offset and coefficient of the object is a double. Boundedness is not needed.
\<close>

theorem Hrep_round_trip_region:
  assumes ring: "base_ring = QQ \<or> base_ring = RDF"
    and len: "nrows A = vlength b"
    and full: "full_dimensional A b"
    and eng: "\<And>ieqs backend. engine_keeps_region Polyhedron ieqs base_ring (ncols A) backend"
  shows "\<exists>P. polyhedron_from_Hrep Polyhedron A b base_ring = Inr P
           \<and> (exact_in_RDF P \<longrightarrow>
                (\<exists>A' b'. polyhedron_to_Hrep P False = [Mat A', Vec b']
                    \<and> (\<forall>x. in_Hrep A' b' x \<longleftrightarrow> in_Hrep A b x)))"
proof -
  from polyhedron_from_Hrep_region[OF ring len eng] obtain P where
    P: "polyhedron_from_Hrep Polyhedron A b base_ring = Inr P"
    and reg: "\<And>x. in_polyhedron P x \<longleftrightarrow> in_Hrep A b x"
    by blast
  from full obtain x0 \<epsilon> where e: "0 < \<epsilon>"
    and box: "\<And>y. (\<forall>j. \<bar>y j - x0 j\<bar> \<le> \<epsilon>) \<Longrightarrow> in_Hrep A b y"
    by (auto simp add: full_dimensional_def interior_point_def)
  have inner: "\<And>y. (\<forall>j. \<bar>y j - x0 j\<bar> \<le> \<epsilon>) \<Longrightarrow> in_polyhedron P y"
    using box reg by simp
  have "\<exists>A' b'. polyhedron_to_Hrep P False = [Mat A', Vec b']
          \<and> (\<forall>x. in_Hrep A' b' x \<longleftrightarrow> in_Hrep A b x)" if ex: "exact_in_RDF P"
    using polyhedron_to_Hrep_full_dimensional[OF ex e inner] reg by simp
  then show ?thesis using P by blast
qed

theorem Hrep_round_trip_region_witness:
  "\<exists>P A' b'. polyhedron_from_Hrep rows_engine (matrix QQ [[1], [- 1]]) (vector QQ [1, 1]) QQ = Inr P
      \<and> polyhedron_to_Hrep P False = [Mat A', Vec b']
      \<and> in_Hrep A' b' (\<lambda>j. 0) \<and> \<not> in_Hrep A' b' (\<lambda>j. 2)"
proof -
  let ?A = "matrix QQ [[1], [- 1]]"
  let ?b = "vector QQ [1, 1]"
  have len: "nrows ?A = vlength ?b"
    by (simp add: nrows_def vlength_def matrix_def vector_def)
  have "interior_point ?A ?b (\<lambda>j. 0) 1"
    by (auto simp add: interior_point_def in_Hrep_def sat_rows_def matrix_def vector_def
        ring_elem_QQ dot_def abs_le_iff)
  then have full: "full_dimensional ?A ?b"
    unfolding full_dimensional_def by blast
  have v0: "in_Hrep ?A ?b (\<lambda>j. 0)"
    by (simp add: in_Hrep_def sat_rows_def matrix_def vector_def ring_elem_QQ dot_def)
  have v2: "\<not> in_Hrep ?A ?b (\<lambda>j. 2)"
    by (simp add: in_Hrep_def sat_rows_def matrix_def vector_def ring_elem_QQ dot_def)
  from Hrep_round_trip_region[of QQ ?A ?b rows_engine, OF _ len full rows_engine_keeps_region]
  obtain P where P: "polyhedron_from_Hrep rows_engine ?A ?b QQ = Inr P"
    and rt: "exact_in_RDF P \<longrightarrow>
                (\<exists>A' b'. polyhedron_to_Hrep P False = [Mat A', Vec b']
                    \<and> (\<forall>x. in_Hrep A' b' x \<longleftrightarrow> in_Hrep ?A ?b x))"
    by auto
  have "P = rows_engine [[1, - 1], [1, 1]] QQ 1 ''ppl''"
    using P by (simp add: polyhedron_from_Hrep_def matrix_def vector_def ring_elem_QQ ncols_def)
  then have "exact_in_RDF P"
    by (simp add: exact_in_RDF_def rows_engine_def RDF_round_1 RDF_round_m1)
  then show ?thesis using rt P v0 v2 by auto
qed

text \<open>
  The claim fails for \<open>A = [[1], [-1]]\<close>, \<open>b = [2^53 + 1, 1]\<close> over the rational field:
  the interval from \<open>-1\<close> to \<open>2^53 + 1\<close> is full-dimensional and bounded, the engine
  keeps both rows, and \<^verbatim>\<open>polyhedron_to_Hrep\<close> returns the right-hand side
  \<open>2^53 + 1\<close> rounded into \<^verbatim>\<open>RDF\<close>, that is \<open>2^53\<close>. The point \<open>2^53 + 1\<close> of the
  region is not in the region of the returned system.
\<close>

theorem Hrep_round_trip_rounding_counterexample:
  "full_dimensional (matrix QQ [[1], [- 1]]) (vector QQ [9007199254740993, 1])
   \<and> \<not> (\<exists>x. in_Hrep (matrix QQ [[1], [- 1]]) (vector QQ [9007199254740993, 1]) x
              \<and> 9007199254740993 < \<bar>x 0\<bar>)
   \<and> engine_keeps_region rows_engine [[9007199254740993, - 1], [1, 1]] QQ 1 ''ppl''
   \<and> polyhedron_from_Hrep rows_engine
        (matrix QQ [[1], [- 1]]) (vector QQ [9007199254740993, 1]) QQ
       = Inr (rows_engine [[9007199254740993, - 1], [1, 1]] QQ 1 ''ppl'')
   \<and> polyhedron_to_Hrep (rows_engine [[9007199254740993, - 1], [1, 1]] QQ 1 ''ppl'') False
       = [Mat \<lparr>m_ring = RDF, m_ncols = 1, m_rows = [[1], [- 1]]\<rparr>,
          Vec \<lparr>v_ring = RDF, v_elems = [9007199254740992, 1]\<rparr>]
   \<and> in_Hrep (matrix QQ [[1], [- 1]]) (vector QQ [9007199254740993, 1])
        (\<lambda>j. 9007199254740993)
   \<and> \<not> in_Hrep \<lparr>m_ring = RDF, m_ncols = 1, m_rows = [[1], [- 1]]\<rparr>
              \<lparr>v_ring = RDF, v_elems = [9007199254740992, 1]\<rparr> (\<lambda>j. 9007199254740993)"
proof (intro conjI)
  let ?A = "matrix QQ [[1], [- 1]]"
  let ?b = "vector QQ [9007199254740993, 1]"
  have "y 0 \<le> 9007199254740993" if "\<forall>j. y j \<le> 1 \<and> - 1 \<le> y j" for y :: "nat \<Rightarrow> real"
  proof -
    have "y 0 \<le> 1" using that by blast
    then show ?thesis by linarith
  qed
  then have "interior_point ?A ?b (\<lambda>j. 0) 1"
    by (auto simp add: interior_point_def in_Hrep_def sat_rows_def matrix_def vector_def
        ring_elem_QQ dot_def abs_le_iff)
  then show "full_dimensional ?A ?b"
    unfolding full_dimensional_def by blast
  show "\<not> (\<exists>x. in_Hrep ?A ?b x \<and> 9007199254740993 < \<bar>x 0\<bar>)"
    by (auto simp add: in_Hrep_def sat_rows_def matrix_def vector_def ring_elem_QQ dot_def)
  show "engine_keeps_region rows_engine [[9007199254740993, - 1], [1, 1]] QQ 1 ''ppl''"
    by (rule rows_engine_keeps_region)
  show "polyhedron_from_Hrep rows_engine ?A ?b QQ
       = Inr (rows_engine [[9007199254740993, - 1], [1, 1]] QQ 1 ''ppl'')"
    by (simp add: polyhedron_from_Hrep_def matrix_def vector_def ring_elem_QQ ncols_def)
  show "polyhedron_to_Hrep (rows_engine [[9007199254740993, - 1], [1, 1]] QQ 1 ''ppl'') False
       = [Mat \<lparr>m_ring = RDF, m_ncols = 1, m_rows = [[1], [- 1]]\<rparr>,
          Vec \<lparr>v_ring = RDF, v_elems = [9007199254740992, 1]\<rparr>]"
    by (simp add: polyhedron_to_Hrep_def rows_engine_def cvector_def matrix_def vector_def
        ring_elem_def RDF_round_1 RDF_round_m1 RDF_round_2_53_1)
  show "in_Hrep ?A ?b (\<lambda>j. 9007199254740993)"
    by (simp add: in_Hrep_def sat_rows_def matrix_def vector_def ring_elem_QQ dot_def)
  show "\<not> in_Hrep \<lparr>m_ring = RDF, m_ncols = 1, m_rows = [[1], [- 1]]\<rparr>
              \<lparr>v_ring = RDF, v_elems = [9007199254740992, 1]\<rparr> (\<lambda>j. 9007199254740993)"
    by (simp add: in_Hrep_def sat_rows_def dot_def)
qed

section \<open>Chebyshev center of a box\<close>























section \<open>Further properties of the polytope path\<close>

lemma lp_feasible_support_lp: "lp_feasible (support_lp d A b) x \<longleftrightarrow> in_Hrep A b x"
  by (simp add: lp_feasible_def support_lp_def in_Hrep_def sat_rows_def)

lemma lp_value_support_lp: "lp_value (support_lp d A b) x = dot d x"
  by (simp add: lp_value_def support_lp_def)

text \<open>
  For a polytope object that is not flagged empty, \<^verbatim>\<open>supp_fun_polyhedron\<close> returns the
  maximum of \<open>d . x\<close> over the system it extracts inline, given a solver that answers
  the program correctly.
\<close>

theorem supp_fun_polyhedron_Poly_optimum:
  assumes ne: "\<not> p_is_empty P"
    and ext: "supp_inline_Hrep P = Inr (A, b)"
    and sol: "solver_answers solve (support_lp d A b)"
    and opt: "in_Hrep A b x0" "\<And>y. in_Hrep A b y \<Longrightarrow> dot d y \<le> dot d x0"
  shows "supp_fun_polyhedron solve (Poly P) d False = Inr (Oval (dot d x0))"
proof -
  have "lp_optimal (support_lp d A b) x0"
    using opt by (simp add: lp_optimal_def lp_feasible_support_lp lp_value_support_lp)
  from solver_answers_optimum[OF sol this] obtain oval x where
    s: "solve (support_lp d A b) = Inr (oval, x)" and ox: "lp_optimal (support_lp d A b) x"
    by blast
  have "oval = dot d x" using sol s by (simp add: solver_answers_def lp_value_support_lp)
  moreover have "dot d x \<le> dot d x0"
    using ox opt(2) by (simp add: lp_optimal_def lp_feasible_support_lp)
  moreover have "dot d x0 \<le> dot d x"
    using ox opt(1) by (simp add: lp_optimal_def lp_feasible_support_lp lp_value_support_lp)
  ultimately have "oval = dot d x0" by simp
  then show ?thesis
    using ne ext s by (simp add: supp_fun_polyhedron_def py_is_empty_def supp_constraints_def)
qed

theorem supp_fun_polyhedron_Poly_optimum_witness:
  "supp_fun_polyhedron (\<lambda>p. Inr (1, \<lambda>j. 1)) (Poly (rows_engine [[1, - 1], [1, 1]] QQ 1 ''ppl'')) [1] False
     = Inr (Oval 1)"
proof -
  let ?P = "rows_engine [[1, - 1], [1, 1]] QQ 1 ''ppl''"
  let ?A = "\<lparr>m_ring = QQ, m_ncols = 1, m_rows = [[1], [- 1]]\<rparr>"
  let ?b = "\<lparr>v_ring = QQ, v_elems = [1, 1]\<rparr>"
  let ?S = "\<lambda>p::lp. Inr (1::real, \<lambda>j::nat. 1::real) :: lp_failure + real \<times> (nat \<Rightarrow> real)"
  have ne: "\<not> p_is_empty ?P" by (simp add: rows_engine_def)
  have ext: "supp_inline_Hrep ?P = Inr (?A, ?b)"
    by (simp add: supp_inline_Hrep_def rows_engine_def cvector_def)
  have sol: "solver_answers ?S (support_lp [1] ?A ?b)"
    by (auto simp add: solver_answers_def lp_optimal_def lp_feasible_def lp_value_def
        support_lp_def dot_def)
  have o1: "in_Hrep ?A ?b (\<lambda>j. 1)"
    by (simp add: in_Hrep_def sat_rows_def dot_def)
  have o2: "\<And>y. in_Hrep ?A ?b y \<Longrightarrow> dot [1] y \<le> dot [1] (\<lambda>j. 1)"
    by (simp add: in_Hrep_def sat_rows_def dot_def)
  from supp_fun_polyhedron_Poly_optimum[OF ne ext sol o1 o2] show ?thesis by (simp add: dot_def)
qed

text \<open>
  The region of the system that \<^verbatim>\<open>polyhedron_to_Hrep\<close> returns without equality
  separation, for an object whose entries are doubles: an inequality row keeps its
  half-space, an equation row
  \<open>offset + coeff . x = 0\<close> becomes \<open>|coeff . x| \<le> offset\<close>.
\<close>

theorem polyhedron_to_Hrep_region_of_rows:
  assumes ex: "exact_in_RDF P"
  shows "\<exists>A b. polyhedron_to_Hrep P False = [Mat A, Vec b]
     \<and> (\<forall>x. in_Hrep A b x \<longleftrightarrow>
           list_all (\<lambda>c. if is_equation c then \<bar>dot (h_coeffs c) x\<bar> \<le> h_offset c
                          else 0 \<le> h_offset c + dot (h_coeffs c) x) (p_Hrep P))"
proof -
  from polyhedron_to_Hrep_region[OF ex] obtain A b where
    h: "polyhedron_to_Hrep P False = [Mat A, Vec b]"
    and hr: "\<And>x. in_Hrep A b x \<longleftrightarrow>
           (\<forall>c\<in>set (p_Hrep P). 0 \<le> h_offset c + dot (h_coeffs c) x
               \<and> (is_equation c \<longrightarrow> dot (h_coeffs c) x \<le> h_offset c))"
    by blast
  have one: "(0 \<le> h_offset c + dot (h_coeffs c) x
               \<and> (is_equation c \<longrightarrow> dot (h_coeffs c) x \<le> h_offset c))
        \<longleftrightarrow> (if is_equation c then \<bar>dot (h_coeffs c) x\<bar> \<le> h_offset c
                          else 0 \<le> h_offset c + dot (h_coeffs c) x)" for c x
    by (cases "is_equation c") (simp_all add: abs_le_iff, linarith)
  have "in_Hrep A b x \<longleftrightarrow>
           list_all (\<lambda>c. if is_equation c then \<bar>dot (h_coeffs c) x\<bar> \<le> h_offset c
                          else 0 \<le> h_offset c + dot (h_coeffs c) x) (p_Hrep P)" for x
    unfolding hr list_all_iff one ..
  then show ?thesis using h by blast
qed

theorem polyhedron_to_Hrep_region_of_rows_witness:
  "\<exists>A b. polyhedron_to_Hrep point_polytope False = [Mat A, Vec b] \<and> \<not> in_Hrep A b (\<lambda>j. 1)"
proof -
  have "exact_in_RDF point_polytope"
    by (simp add: exact_in_RDF_def point_polytope_def RDF_round_1 RDF_round_m1)
  from polyhedron_to_Hrep_region_of_rows[OF this] obtain A b where
    h: "polyhedron_to_Hrep point_polytope False = [Mat A, Vec b]"
    and hr: "\<And>x. in_Hrep A b x \<longleftrightarrow>
           list_all (\<lambda>c. if is_equation c then \<bar>dot (h_coeffs c) x\<bar> \<le> h_offset c
                          else 0 \<le> h_offset c + dot (h_coeffs c) x) (p_Hrep point_polytope)"
    by blast
  have "\<not> in_Hrep A b (\<lambda>j. 1)" unfolding hr by (simp add: point_polytope_def dot_def)
  then show ?thesis using h by blast
qed

text \<open>
  For a polytope object without equation rows whose entries are doubles, the inline
  extraction of
  \<^verbatim>\<open>supp_fun_polyhedron\<close> and \<^verbatim>\<open>polyhedron_to_Hrep\<close> give the same rows and the
  same right-hand sides.
\<close>

lemma to_Hrep_loop_no_equation:
  "list_all (\<lambda>c. \<not> is_equation c) cs \<Longrightarrow>
   to_Hrep_loop cs A b =
     (A @ map (\<lambda>c. map uminus (h_coeffs c)) cs, b @ map h_offset cs)"
  by (induction cs arbitrary: A b) (simp_all add: cvector_def)

theorem supp_inline_Hrep_agrees_without_equations:
  assumes noeq: "list_all (\<lambda>c. \<not> is_equation c) (p_Hrep P)"
    and ex: "exact_in_RDF P"
    and ext: "supp_inline_Hrep P = Inr (A, b)"
  shows "\<exists>A' b'. polyhedron_to_Hrep P False = [Mat A', Vec b']
           \<and> m_rows A' = m_rows A \<and> v_elems b' = v_elems b"
  using ext unfolding polyhedron_to_Hrep_exact[OF ex]
  by (auto simp add: to_Hrep_loop_no_equation[OF noeq] supp_inline_Hrep_def
      cvector_def Let_def split: list.splits)

theorem supp_inline_Hrep_agrees_without_equations_witness:
  "\<exists>A' b'. polyhedron_to_Hrep (rows_engine [[1, - 1], [1, 1]] QQ 1 ''ppl'') False = [Mat A', Vec b']
           \<and> m_rows A' = [[1], [- 1]] \<and> v_elems b' = [1, 1]"
proof -
  let ?P = "rows_engine [[1, - 1], [1, 1]] QQ 1 ''ppl''"
  have noeq: "list_all (\<lambda>c. \<not> is_equation c) (p_Hrep ?P)" by (simp add: rows_engine_def)
  have ex: "exact_in_RDF ?P"
    by (simp add: exact_in_RDF_def rows_engine_def RDF_round_1 RDF_round_m1)
  have ext: "supp_inline_Hrep ?P
               = Inr (\<lparr>m_ring = QQ, m_ncols = 1, m_rows = [[1], [- 1]]\<rparr>,
                      \<lparr>v_ring = QQ, v_elems = [1, 1]\<rparr>)"
    by (simp add: supp_inline_Hrep_def rows_engine_def cvector_def)
  from supp_inline_Hrep_agrees_without_equations[OF noeq ex ext] show ?thesis by simp
qed

end
